theory Spec2Isabelle
  imports Main
begin

section \<open>Python strings\<close>

text \<open>
  A Python \<open>str\<close> is modelled as a \<open>string\<close>. The model covers ASCII text: the word
  list of the program is ASCII, and the case mappings and the white-space test below are
  Python's on the code points below 128 (other characters are left alone and are not white
  space here). Iterating over a \<open>str\<close> yields its characters as strings of length one.
  Where a statement depends on how a line of input is normalised, it is made for ASCII lines
  (\<open>isascii\<close>), on which \<open>py_strip\<close> and \<open>py_upper\<close> are \<open>str.strip\<close> and \<open>str.upper\<close>.
\<close>

datatype py_error = EOFError | IndexError | ValueError

definition ascii_lowercase :: string where
  "ascii_lowercase = ''abcdefghijklmnopqrstuvwxyz''"

definition ascii_uppercase :: string where
  "ascii_uppercase = ''ABCDEFGHIJKLMNOPQRSTUVWXYZ''"

definition upper_char :: "char \<Rightarrow> char" where
  "upper_char c =
     (case map_of (zip ascii_lowercase ascii_uppercase) c of Some u \<Rightarrow> u | None \<Rightarrow> c)"

definition lower_char :: "char \<Rightarrow> char" where
  "lower_char c =
     (case map_of (zip ascii_uppercase ascii_lowercase) c of Some l \<Rightarrow> l | None \<Rightarrow> c)"

definition py_upper :: "string \<Rightarrow> string" where
  "py_upper s = map upper_char s"

definition py_lower :: "string \<Rightarrow> string" where
  "py_lower s = map lower_char s"

definition whitespace :: string where
  "whitespace =
     [CHR 0x09, CHR 0x0A, CHR 0x0B, CHR 0x0C, CHR 0x0D,
      CHR 0x1C, CHR 0x1D, CHR 0x1E, CHR 0x1F, CHR 0x20]"

definition isspace :: "char \<Rightarrow> bool" where
  "isspace c = (c \<in> set whitespace)"

definition py_strip :: "string \<Rightarrow> string" where
  "py_strip s = rev (dropWhile isspace (rev (dropWhile isspace s)))"

text \<open>\<open>str.split()\<close> without arguments: the maximal runs of characters that are not white space.\<close>

fun split_from :: "string \<Rightarrow> string \<Rightarrow> string list" where
  "split_from cur [] = (if cur = [] then [] else [cur])"
| "split_from cur (c # cs) =
     (if isspace c then (if cur = [] then split_from [] cs else cur # split_from [] cs)
      else split_from (cur @ [c]) cs)"

definition py_split :: "string \<Rightarrow> string list" where
  "py_split s = split_from [] s"

definition py_chars :: "string \<Rightarrow> string list" where
  "py_chars s = map (\<lambda>c. [c]) s"

text \<open>\<open>str.isascii()\<close>: every character is a code point below 128.\<close>

definition isascii :: "string \<Rightarrow> bool" where
  "isascii s = list_all (\<lambda>c. (of_char c :: nat) < 128) s"

section \<open>Static data\<close>

definition images :: "string list" where
  "images =
   [''\<newline>====='',
    ''\<newline>    +\<newline>    |\<newline>    |\<newline>    |\<newline>    |\<newline>    |\<newline>====='',
    ''\<newline> +--+\<newline>    |\<newline>    |\<newline>    |\<newline>    |\<newline>    |\<newline>====='',
    ''\<newline> +--+\<newline> |  |\<newline>    |\<newline>    |\<newline>    |\<newline>    |\<newline>====='',
    ''\<newline> +--+\<newline> |  |\<newline> O  |\<newline>    |\<newline>    |\<newline>    |\<newline>====='',
    ''\<newline> +--+\<newline> |  |\<newline> O  |\<newline> |  |\<newline>    |\<newline>    |\<newline>====='',
    ''\<newline> +--+\<newline> |  |\<newline> O  |\<newline>/|  |\<newline>    |\<newline>    |\<newline>====='',
    ''\<newline> +--+\<newline> |  |\<newline> O  |\<newline>/|'' @ [CHR 0x5C] @ '' |\<newline>    |\<newline>    |\<newline>====='',
    ''\<newline> +--+\<newline> |  |\<newline> O  |\<newline>/|'' @ [CHR 0x5C] @ '' |\<newline>/   |\<newline>    |\<newline>====='',
    ''\<newline> +--+\<newline> |  |\<newline> O  |\<newline>/|'' @ [CHR 0x5C] @ '' |\<newline>/ '' @ [CHR 0x5C] @ '' |\<newline>    |\<newline>=====''
   ]"

definition animal_words :: string where
  "animal_words =
   ''\<newline>    Dog Cat Elephant Lion Tiger Giraffe Zebra Bear Koala'' @
   ''\<newline>    Panda Kangaroo Penguin Dolphin Eagle Owl Fox Wolf Cheetah'' @
   ''\<newline>    Leopard Jaguar Horse Cow Pig Sheep Goat Chicken Duck Goose'' @
   ''\<newline>    Swan Octopus Shark Whale Platypus Chimpanzee Gorilla Orangutan'' @
   ''\<newline>    Baboon Raccoon Squirrel Bat Hedgehog Armadillo Sloth Porcupine'' @
   ''\<newline>    Anteater Camel Dingo Kangaroo Rat Lemur Meerkat Ocelot Parrot'' @
   ''\<newline>    Quokka Vulture Wombat Yak Iguana jaguar Kakapo Lemming'' @
   ''\<newline>    Manatee Nutria Ostrich Pangolin Quail Rhinoceros Serval'' @
   ''\<newline>    Wallaby Coypu Tapir Pheasant'' @
   ''\<newline>    ''"

definition word_list_dict :: "(string \<times> string) list" where
  "word_list_dict = [(''animals'', animal_words)]"

definition get_word_list :: "string \<Rightarrow> py_error + string list" where
  "get_word_list category =
     (let category = py_lower category in
      case map_of word_list_dict category of
        Some words \<Rightarrow> Inr (map py_upper (py_split words))
      | None \<Rightarrow> Inl ValueError)"

section \<open>Game state\<close>

record PuzzleLetter =
  character :: string
  guessed :: bool

type_synonym Puzzle = "PuzzleLetter list"

record GameState =
  player_name :: string
  word :: string
  current_guess :: string
  guesses :: "string set"
  remaining_letters :: "string set"
  puzzle :: Puzzle
  image_idx :: int

text \<open>The state that the dataclass constructor \<open>GameState()\<close> builds from its defaults.\<close>

definition GameState_init :: GameState where
  "GameState_init =
     \<lparr>player_name = '''', word = '''', current_guess = '''', guesses = {},
      remaining_letters = {}, puzzle = [], image_idx = 0\<rparr>"

definition initialise_game_state :: "GameState \<Rightarrow> GameState" where
  "initialise_game_state s =
     s\<lparr>remaining_letters := set (py_chars (word s)),
       puzzle := map (\<lambda>ch. \<lparr>character = ch, guessed = False\<rparr>) (py_chars (word s))\<rparr>"

definition update_puzzle :: "GameState \<Rightarrow> GameState" where
  "update_puzzle s =
     s\<lparr>puzzle :=
         map (\<lambda>p. \<lparr>character = character p,
                    guessed = (guessed p \<or> character p = current_guess s)\<rparr>)
           (puzzle s)\<rparr>"

text \<open>
  \<open>set.remove\<close> raises \<open>KeyError\<close> when the element is absent; the handler of
  \<open>update_state_on_guess\<close> turns that into the increment of \<open>image_idx\<close>.
\<close>

definition update_state_on_guess :: "GameState \<Rightarrow> GameState" where
  "update_state_on_guess s =
     (if current_guess s \<in> remaining_letters s
      then update_puzzle (s\<lparr>remaining_letters := remaining_letters s - {current_guess s}\<rparr>)
      else s\<lparr>image_idx := image_idx s + 1\<rparr>)"

definition reset_current_game :: "GameState \<Rightarrow> GameState" where
  "reset_current_game s =
     s\<lparr>word := '''', current_guess := '''', guesses := {}, remaining_letters := {},
       puzzle := [], image_idx := 0\<rparr>"

section \<open>User interface\<close>

text \<open>
  Standard input is the list of the lines still to be read; \<open>input()\<close> on the empty list
  raises \<open>EOFError\<close>. What the program prints does not change the state and is left out,
  except that drawing the screen reads \<open>images()[image_idx]\<close>, which can raise.
\<close>

fun get_guess :: "GameState \<Rightarrow> string list \<Rightarrow> py_error + (string \<times> string list)" where
  "get_guess s [] = Inl EOFError"
| "get_guess s (line # rest) =
     (let new_guess = py_upper (py_strip line) in
      if length new_guess \<noteq> 1 then get_guess s rest
      else if new_guess \<in> guesses s then get_guess s rest
      else Inr (new_guess, rest))"

text \<open>Indexing a tuple: a negative index counts from the end, an index out of range raises.\<close>

definition get_image :: "GameState \<Rightarrow> py_error + string" where
  "get_image s =
     (let n = int (length images);
          j = (if image_idx s < 0 then n + image_idx s else image_idx s)
      in if 0 \<le> j \<and> j < n then Inr (images ! nat j) else Inl IndexError)"

definition update_screen :: "GameState \<Rightarrow> py_error + unit" where
  "update_screen s = (case get_image s of Inl e \<Rightarrow> Inl e | Inr img \<Rightarrow> Inr ())"

section \<open>Game logic\<close>

definition initialise_game :: "GameState \<Rightarrow> string \<Rightarrow> GameState" where
  "initialise_game s puzzle_word = initialise_game_state (s\<lparr>word := puzzle_word\<rparr>)"

definition update_game_state :: "GameState \<Rightarrow> string \<Rightarrow> GameState" where
  "update_game_state s new_guess =
     update_state_on_guess
       (s\<lparr>current_guess := new_guess, guesses := insert new_guess (guesses s)\<rparr>)"

definition player_loses :: "GameState \<Rightarrow> bool" where
  "player_loses s = (image_idx s = int (length images) - 1)"

text \<open>
  The \<open>while\<close> loop of \<open>play_game\<close>. The result is the outcome (the returned flag, or the
  exception that left the loop) and the state as the loop left it. The branch on
  \<open>is_good_guess\<close> only chooses the message that is printed.
\<close>

function play_game_loop :: "GameState \<Rightarrow> string list \<Rightarrow> (py_error + bool) \<times> GameState" where
  "play_game_loop s inputs =
     (if remaining_letters s = {} then (Inr True, s)
      else case get_guess s inputs of
             Inl e \<Rightarrow> (Inl e, s)
           | Inr (new_guess, rest) \<Rightarrow>
               (let s' = update_game_state s new_guess in
                case update_screen s' of
                  Inl e \<Rightarrow> (Inl e, s')
                | Inr u \<Rightarrow> if player_loses s' then (Inr False, s') else play_game_loop s' rest))"
  by pat_completeness auto
termination
proof (relation "measure (\<lambda>(s, inputs). length inputs)")
  show "wf (measure (\<lambda>(s :: GameState, inputs :: string list). length inputs))"
    by simp
next
  fix s :: GameState and inputs :: "string list" and x2 x1 rest s' x2a
  assume g: "get_guess s inputs = Inr x2" and x: "(x1, rest) = x2"
  have "\<And>g r. get_guess s inputs = Inr (g, r) \<Longrightarrow> length r < length inputs"
  proof (induction inputs)
    case Nil
    then show ?case by simp
  next
    case (Cons line rest)
    then show ?case
      by (fastforce simp: Let_def split: if_splits)
  qed
  with g x have "length rest < length inputs"
    by metis
  then show "((s', rest), (s, inputs)) \<in> measure (\<lambda>(s, inputs). length inputs)"
    by simp
qed

definition play_game :: "GameState \<Rightarrow> string list \<Rightarrow> (py_error + bool) \<times> GameState" where
  "play_game s inputs =
     (case update_screen s of Inl e \<Rightarrow> (Inl e, s) | Inr u \<Rightarrow> play_game_loop s inputs)"

text \<open>
  The states of a round: the state \<open>initialise_game\<close> leaves when it starts from a new or a
  reset state (no guess recorded, drawing at stage 0), and every state that follows by a
  guess that \<open>get_guess\<close> has returned.
\<close>

inductive reachable :: "GameState \<Rightarrow> bool" where
  fresh: "guesses s = {} \<Longrightarrow> image_idx s = 0 \<Longrightarrow> reachable (initialise_game s w)"
| guess: "reachable s \<Longrightarrow> get_guess s inputs = Inr (g, rest) \<Longrightarrow>
          reachable (update_game_state s g)"

code_pred reachable .

declare play_game_loop.simps [simp del]

section \<open>Auxiliary facts\<close>

lemma length_images: "length images = 10"
  by (simp add: images_def)

lemma upper_letters_all: "list_all (\<lambda>c. upper_char c = c \<and> \<not> isspace c) ascii_uppercase"
  by code_simp

lemma upper_strip_letter:
  "c \<in> set ascii_uppercase \<Longrightarrow> py_upper (py_strip [c]) = [c]"
  using upper_letters_all by (simp add: py_upper_def py_strip_def list_all_iff)

lemma update_game_state_correct:
  "g \<in> remaining_letters s \<Longrightarrow>
   update_game_state s g =
     s\<lparr>current_guess := g, guesses := insert g (guesses s),
       remaining_letters := remaining_letters s - {g},
       puzzle := map (\<lambda>p. \<lparr>character = character p,
                              guessed = (guessed p \<or> character p = g)\<rparr>) (puzzle s)\<rparr>"
  by (simp add: update_game_state_def update_state_on_guess_def update_puzzle_def)

lemma update_game_state_wrong:
  "g \<notin> remaining_letters s \<Longrightarrow>
   update_game_state s g =
     s\<lparr>current_guess := g, guesses := insert g (guesses s), image_idx := image_idx s + 1\<rparr>"
  by (simp add: update_game_state_def update_state_on_guess_def)

lemma update_screen_ok: "0 \<le> image_idx s \<Longrightarrow> image_idx s \<le> 9 \<Longrightarrow> update_screen s = Inr ()"
  by (simp add: update_screen_def get_image_def length_images)

lemma get_guess_accept:
  "py_upper (py_strip g) = g \<Longrightarrow> length g = 1 \<Longrightarrow> g \<notin> guesses s \<Longrightarrow>
   get_guess s (g # rest) = Inr (g, rest)"
  by simp

lemma loop_all_correct:
  "distinct gs \<Longrightarrow> set gs = remaining_letters s \<Longrightarrow> set gs \<inter> guesses s = {} \<Longrightarrow>
   (\<forall>g\<in>set gs. py_upper (py_strip g) = g \<and> length g = 1) \<Longrightarrow>
   0 \<le> image_idx s \<Longrightarrow> image_idx s < 9 \<Longrightarrow>
   (\<forall>p\<in>set (puzzle s). guessed p \<or> character p \<in> remaining_letters s) \<Longrightarrow>
   \<exists>s'. play_game_loop s gs = (Inr True, s') \<and> remaining_letters s' = {} \<and>
        image_idx s' = image_idx s \<and> map character (puzzle s') = map character (puzzle s) \<and>
        (\<forall>p\<in>set (puzzle s'). guessed p)"
proof (induction gs arbitrary: s)
  case Nil
  then show ?case
    by (simp add: play_game_loop.simps)
next
  case (Cons g gs)
  let ?s = "update_game_state s g"
  from Cons.prems have g_in: "g \<in> remaining_letters s" and g_new: "g \<notin> guesses s"
    and g_ok: "py_upper (py_strip g) = g" "length g = 1"
    by auto
  have upd: "?s = s\<lparr>current_guess := g, guesses := insert g (guesses s),
       remaining_letters := remaining_letters s - {g},
       puzzle := map (\<lambda>p. \<lparr>character = character p,
                              guessed = (guessed p \<or> character p = g)\<rparr>) (puzzle s)\<rparr>"
    using g_in by (rule update_game_state_correct)
  have rem: "set gs = remaining_letters ?s"
    using Cons.prems(1,2) by (auto simp: upd)
  have new: "set gs \<inter> guesses ?s = {}"
    using Cons.prems(1,3) by (auto simp: upd)
  have puz: "\<forall>p\<in>set (puzzle ?s). guessed p \<or> character p \<in> remaining_letters ?s"
    using Cons.prems(7) by (auto simp: upd)
  have idx: "image_idx ?s = image_idx s"
    by (simp add: upd)
  have chars: "map character (puzzle ?s) = map character (puzzle s)"
    by (simp add: upd comp_def)
  from Cons.IH [of ?s] rem new puz idx Cons.prems
  obtain s' where s': "play_game_loop ?s gs = (Inr True, s')" "remaining_letters s' = {}"
    "image_idx s' = image_idx s" "map character (puzzle s') = map character (puzzle ?s)"
    "\<forall>p\<in>set (puzzle s'). guessed p"
    by auto
  have scr: "update_screen ?s = Inr ()"
    using Cons.prems(5,6) idx by (simp add: update_screen_ok)
  have nl: "\<not> player_loses ?s"
    using Cons.prems(6) idx by (simp add: player_loses_def length_images)
  have "play_game_loop s (g # gs) = play_game_loop ?s gs"
    using g_in get_guess_accept [OF g_ok g_new] scr nl
    by (subst play_game_loop.simps) auto
  with s' chars show ?case
    by simp
qed

lemma loop_all_wrong:
  "gs \<noteq> [] \<Longrightarrow> distinct gs \<Longrightarrow> set gs \<inter> remaining_letters s = {} \<Longrightarrow>
   set gs \<inter> guesses s = {} \<Longrightarrow> remaining_letters s \<noteq> {} \<Longrightarrow>
   (\<forall>g\<in>set gs. py_upper (py_strip g) = g \<and> length g = 1) \<Longrightarrow>
   0 \<le> image_idx s \<Longrightarrow> image_idx s + int (length gs) = 9 \<Longrightarrow>
   \<exists>s'. play_game_loop s gs = (Inr False, s') \<and> remaining_letters s' = remaining_letters s \<and>
        image_idx s' = 9 \<and> puzzle s' = puzzle s"
proof (induction gs arbitrary: s)
  case Nil
  then show ?case by simp
next
  case (Cons g gs)
  let ?s = "update_game_state s g"
  from Cons.prems have g_out: "g \<notin> remaining_letters s" and g_new: "g \<notin> guesses s"
    and g_ok: "py_upper (py_strip g) = g" "length g = 1"
    by auto
  have upd: "?s = s\<lparr>current_guess := g, guesses := insert g (guesses s),
       image_idx := image_idx s + 1\<rparr>"
    using g_out by (rule update_game_state_wrong)
  have scr: "update_screen ?s = Inr ()"
    using Cons.prems(7,8) by (simp add: update_screen_ok upd)
  have step: "play_game_loop s (g # gs) =
      (if player_loses ?s then (Inr False, ?s) else play_game_loop ?s gs)"
    using Cons.prems(5) get_guess_accept [OF g_ok g_new] scr
    by (subst play_game_loop.simps) auto
  show ?case
  proof (cases "gs = []")
    case True
    with Cons.prems(8) have "player_loses ?s"
      by (simp add: player_loses_def length_images upd)
    with step True Cons.prems(8) show ?thesis
      by (simp add: upd)
  next
    case False
    with Cons.prems(8) have nl: "\<not> player_loses ?s"
      by (auto simp: player_loses_def length_images upd)
    have "\<exists>s'. play_game_loop ?s gs = (Inr False, s') \<and>
        remaining_letters s' = remaining_letters ?s \<and> image_idx s' = 9 \<and> puzzle s' = puzzle ?s"
      using False Cons.prems by (intro Cons.IH) (auto simp: upd)
    with step nl show ?thesis
      by (simp add: upd)
  qed
qed

lemma reachable_invariant:
  "reachable s \<Longrightarrow>
   map character (puzzle s) = py_chars (word s) \<and>
   (\<forall>p\<in>set (puzzle s). guessed p \<longleftrightarrow> character p \<notin> remaining_letters s) \<and>
   remaining_letters s = set (py_chars (word s)) - guesses s"
proof (induction rule: reachable.induct)
  case (fresh s w)
  then show ?case
    by (auto simp: initialise_game_def initialise_game_state_def comp_def)
next
  case (guess s inputs g rest)
  show ?case
  proof (cases "g \<in> remaining_letters s")
    case True
    with guess.IH show ?thesis
      by (auto simp: update_game_state_correct comp_def)
  next
    case False
    with guess.IH show ?thesis
      by (auto simp: update_game_state_wrong)
  qed
qed



lemma split_from_words:
  "(\<forall>c\<in>set cur. \<not> isspace c) \<Longrightarrow> w \<in> set (split_from cur s) \<Longrightarrow>
   w \<noteq> [] \<and> set w \<subseteq> {c \<in> set cur \<union> set s. \<not> isspace c}"
proof (induction s arbitrary: cur)
  case Nil
  then show ?case
    by (auto split: if_splits)
next
  case (Cons c cs)
  show ?case
  proof (cases "isspace c")
    case True
    with Cons.prems have "w = cur \<and> cur \<noteq> [] \<or> w \<in> set (split_from [] cs)"
      by (auto split: if_splits)
    then show ?thesis
    proof
      assume "w = cur \<and> cur \<noteq> []"
      with Cons.prems(1) show ?thesis by auto
    next
      assume "w \<in> set (split_from [] cs)"
      with Cons.IH [of "[]"] show ?thesis by auto
    qed
  next
    case False
    with Cons.prems have "w \<in> set (split_from (cur @ [c]) cs)"
      by simp
    with Cons.IH [of "cur @ [c]"] Cons.prems(1) False show ?thesis
      by auto
  qed
qed

lemma animal_words_chars:
  "list_all (\<lambda>c. isspace c \<or> c \<in> set ascii_uppercase \<or> c \<in> set ascii_lowercase) animal_words"
  by code_simp

lemma upper_char_letters:
  "list_all (\<lambda>c. upper_char c \<in> set ascii_uppercase) (ascii_uppercase @ ascii_lowercase)"
  by code_simp

lemma animal_word_upper:
  assumes "w \<in> set (py_split animal_words)"
  shows "py_upper w \<noteq> [] \<and> set (py_upper w) \<subseteq> set ascii_uppercase"
proof -
  from assms have w: "w \<noteq> []" "set w \<subseteq> {c \<in> set animal_words. \<not> isspace c}"
    using split_from_words [of "[]" w animal_words] by (auto simp: py_split_def)
  have "upper_char c \<in> set ascii_uppercase" if "c \<in> set w" for c
  proof -
    from that w(2) have "c \<in> set animal_words" "\<not> isspace c"
      by auto
    with animal_words_chars have "c \<in> set (ascii_uppercase @ ascii_lowercase)"
      by (auto simp: list_all_iff)
    with upper_char_letters show ?thesis
      by (simp only: list_all_iff)
  qed
  with w(1) show ?thesis
    by (auto simp: py_upper_def)
qed

lemma registered_categories: "fst ` set word_list_dict = {''animals''}"
  by (simp add: word_list_dict_def)

lemma get_word_list_cases:
  "get_word_list category =
     (if py_lower category = ''animals'' then Inr (map py_upper (py_split animal_words))
      else Inl ValueError)"
  by (simp add: get_word_list_def word_list_dict_def)

section \<open>The word list\<close>

text \<open>
  C9 (as amended). \<open>get_word_list\<close> lower-cases the requested category before it looks it
  up: it raises \<open>ValueError\<close> exactly when the lower-cased category is not a key of the
  word-list table, and otherwise returns words that are each non-empty and made of the
  upper-case letters A to Z only. The table registers \<open>animals\<close> alone, and the category
  \<open>robots\<close> fails with \<open>ValueError\<close>.
\<close>

theorem get_word_list_unknown_category:
  "(get_word_list category = Inl ValueError \<longleftrightarrow>
      py_lower category \<notin> fst ` set word_list_dict) \<and>
   (\<forall>ws. get_word_list category = Inr ws \<longrightarrow>
      (\<forall>w\<in>set ws. w \<noteq> [] \<and> set w \<subseteq> set ascii_uppercase)) \<and>
   fst ` set word_list_dict = {''animals''} \<and>
   get_word_list ''robots'' = Inl ValueError"
proof (intro conjI allI impI ballI)
  show "get_word_list category = Inl ValueError \<longleftrightarrow>
      py_lower category \<notin> fst ` set word_list_dict"
    by (simp add: get_word_list_cases registered_categories)
next
  fix ws w
  assume "get_word_list category = Inr ws" and "w \<in> set ws"
  then obtain v where "v \<in> set (py_split animal_words)" "w = py_upper v"
    by (auto simp: get_word_list_cases split: if_splits)
  with animal_word_upper [of v] show "w \<noteq> []" and "set w \<subseteq> set ascii_uppercase"
    by simp_all
next
  show "fst ` set word_list_dict = {''animals''}"
    by (rule registered_categories)
next
  show "get_word_list ''robots'' = Inl ValueError"
    by (simp add: get_word_list_cases py_lower_def lower_char_def ascii_uppercase_def
        ascii_lowercase_def)
qed

text \<open>The category \<open>Animals\<close> is accepted, and \<open>DOG\<close> is one of the words returned.\<close>

lemma get_word_list_animals:
  "get_word_list ''Animals'' = Inr (map py_upper (py_split animal_words))"
  by (simp add: get_word_list_cases py_lower_def lower_char_def ascii_uppercase_def
        ascii_lowercase_def)

lemma dog_listed: "''DOG'' \<in> set (map py_upper (py_split animal_words))"
  by code_simp

theorem get_word_list_unknown_category_witness:
  "py_lower ''Animals'' \<in> fst ` set word_list_dict \<and>
   get_word_list ''Animals'' \<noteq> Inl ValueError \<and>
   ''DOG'' \<in> set (map py_upper (py_split animal_words)) \<and>
   set ''DOG'' \<subseteq> set ascii_uppercase"
proof -
  note t = get_word_list_unknown_category [of "''Animals''"]
  have a: "get_word_list ''Animals'' = Inr (map py_upper (py_split animal_words))"
    by (rule get_word_list_animals)
  from t have 1: "(get_word_list ''Animals'' = Inl ValueError) =
      (py_lower ''Animals'' \<notin> fst ` set word_list_dict)"
    by (rule conjunct1)
  from t have 2: "\<forall>ws. get_word_list ''Animals'' = Inr ws \<longrightarrow>
      (\<forall>w\<in>set ws. w \<noteq> [] \<and> set w \<subseteq> set ascii_uppercase)"
    by (rule conjunct1 [OF conjunct2])
  from 2 a dog_listed have 3: "set ''DOG'' \<subseteq> set ascii_uppercase"
    by blast
  from a have 4: "get_word_list ''Animals'' \<noteq> Inl ValueError"
    by simp
  with 1 have 5: "py_lower ''Animals'' \<in> fst ` set word_list_dict"
    by blast
  from 5 4 dog_listed 3 show ?thesis
    by (intro conjI)
qed

text \<open>
  C9 as stated fails: the category \<open>ANIMALS\<close> is not a key of the table, and no error is
  raised for it.
\<close>

theorem get_word_list_case_counterexample:
  "\<not> (get_word_list ''ANIMALS'' = Inl ValueError \<longleftrightarrow>
        ''ANIMALS'' \<notin> fst ` set word_list_dict)"
  by (simp add: get_word_list_cases registered_categories py_lower_def lower_char_def
      ascii_uppercase_def ascii_lowercase_def)

section \<open>Resetting and initialising a round\<close>

text \<open>
  C10. \<open>reset_current_game\<close> sets word, current_guess, guesses, remaining_letters, puzzle and
  image_idx to their empty or zero values and leaves player_name as it was.
\<close>

theorem reset_current_game_round_fields:
  "word (reset_current_game s) = '''' \<and>
   current_guess (reset_current_game s) = '''' \<and>
   guesses (reset_current_game s) = {} \<and>
   remaining_letters (reset_current_game s) = {} \<and>
   puzzle (reset_current_game s) = [] \<and>
   image_idx (reset_current_game s) = 0 \<and>
   player_name (reset_current_game s) = player_name s"
  by (simp add: reset_current_game_def)

text \<open>
  C3 (as amended). \<open>initialise_game\<close> stores the word, sets remaining_letters to the distinct
  letters of the word and builds the puzzle with one unrevealed letter per position of the
  word; it leaves image_idx and guesses as they were. They are 0 and empty after it when
  the state before it was a new one or one that \<open>reset_current_game\<close> has cleared.
\<close>

theorem initialise_game_postconditions:
  "word (initialise_game s w) = w \<and>
   remaining_letters (initialise_game s w) = set (py_chars w) \<and>
   map character (puzzle (initialise_game s w)) = py_chars w \<and>
   map guessed (puzzle (initialise_game s w)) = replicate (length w) False \<and>
   image_idx (initialise_game s w) = image_idx s \<and>
   guesses (initialise_game s w) = guesses s \<and>
   image_idx (initialise_game (reset_current_game s) w) = 0 \<and>
   guesses (initialise_game (reset_current_game s) w) = {} \<and>
   image_idx (initialise_game GameState_init w) = 0 \<and>
   guesses (initialise_game GameState_init w) = {}"
  by (simp add: initialise_game_def initialise_game_state_def reset_current_game_def
      GameState_init_def py_chars_def comp_def map_replicate_const)

text \<open>
  C3 as stated fails: a state that still holds a guess and a drawing stage of an earlier
  round keeps both through \<open>initialise_game\<close>.
\<close>

theorem initialise_game_stale_counterexample:
  "\<not> (image_idx (initialise_game (GameState_init\<lparr>guesses := {''X''}, image_idx := 3\<rparr>) ''CAT'') = 0 \<and>
      guesses (initialise_game (GameState_init\<lparr>guesses := {''X''}, image_idx := 3\<rparr>) ''CAT'') = {})"
  by (simp add: initialise_game_def initialise_game_state_def GameState_init_def)

section \<open>Applying a guess\<close>

text \<open>
  C5 (as amended). When \<open>update_state_on_guess\<close> is called with a letter that is not in
  remaining_letters, it adds exactly one to image_idx and changes no other field; the
  counter does not saturate.
\<close>

theorem update_state_on_guess_wrong_letter:
  "current_guess s \<notin> remaining_letters s \<Longrightarrow>
   update_state_on_guess s = s\<lparr>image_idx := image_idx s + 1\<rparr>"
  by (simp add: update_state_on_guess_def)

theorem update_state_on_guess_wrong_letter_witness:
  "current_guess ((initialise_game GameState_init ''DOG'')\<lparr>current_guess := ''X''\<rparr>)
     \<notin> remaining_letters ((initialise_game GameState_init ''DOG'')\<lparr>current_guess := ''X''\<rparr>) \<and>
   image_idx (update_state_on_guess
     ((initialise_game GameState_init ''DOG'')\<lparr>current_guess := ''X''\<rparr>)) = 1"
  using update_state_on_guess_wrong_letter
    [of "(initialise_game GameState_init ''DOG'')\<lparr>current_guess := ''X''\<rparr>"]
  by (simp add: initialise_game_def initialise_game_state_def GameState_init_def py_chars_def)

text \<open>
  C5 as stated fails: at the last drawing stage a wrong letter moves image_idx past it.
\<close>

theorem update_state_on_guess_saturation_counterexample:
  "current_guess ((initialise_game GameState_init ''DOG'')\<lparr>current_guess := ''X'', image_idx := 9\<rparr>)
     \<notin> remaining_letters
         ((initialise_game GameState_init ''DOG'')\<lparr>current_guess := ''X'', image_idx := 9\<rparr>) \<and>
   image_idx ((initialise_game GameState_init ''DOG'')\<lparr>current_guess := ''X'', image_idx := 9\<rparr>)
     = int (length images) - 1 \<and>
   image_idx (update_state_on_guess
       ((initialise_game GameState_init ''DOG'')\<lparr>current_guess := ''X'', image_idx := 9\<rparr>))
     \<noteq> int (length images) - 1"
  by (simp add: update_state_on_guess_def initialise_game_def initialise_game_state_def
      GameState_init_def py_chars_def length_images)

section \<open>Invariants of a round\<close>

text \<open>
  C4. In every state of a round, remaining_letters together with the characters of the
  revealed puzzle positions is the set of the letters of the word, and remaining_letters is
  the set of the letters of the word without those guessed correctly.
\<close>

theorem remaining_letters_invariant:
  "reachable s \<Longrightarrow>
   remaining_letters s \<union> set (map character (filter guessed (puzzle s)))
     = set (py_chars (word s)) \<and>
   remaining_letters s
     = set (py_chars (word s)) - {g \<in> guesses s. g \<in> set (py_chars (word s))}"
proof -
  assume "reachable s"
  then have chars: "map character (puzzle s) = py_chars (word s)"
    and shown: "\<forall>p\<in>set (puzzle s). guessed p \<longleftrightarrow> character p \<notin> remaining_letters s"
    and rem: "remaining_letters s = set (py_chars (word s)) - guesses s"
    using reachable_invariant by blast+
  from chars have all: "character ` set (puzzle s) = set (py_chars (word s))"
    by (metis set_map)
  have "set (map character (filter guessed (puzzle s)))
      = character ` set (puzzle s) - remaining_letters s"
    using shown by auto
  with all rem have "remaining_letters s \<union> set (map character (filter guessed (puzzle s)))
     = set (py_chars (word s))"
    by auto
  moreover from rem have "remaining_letters s
     = set (py_chars (word s)) - {g \<in> guesses s. g \<in> set (py_chars (word s))}"
    by auto
  ultimately show ?thesis
    by simp
qed

lemma cat_after_a:
  "update_game_state (initialise_game GameState_init ''CAT'') ''A'' =
     \<lparr>player_name = '''', word = ''CAT'', current_guess = ''A'', guesses = {''A''},
      remaining_letters = {''C'', ''T''},
      puzzle = [\<lparr>character = ''C'', guessed = False\<rparr>, \<lparr>character = ''A'', guessed = True\<rparr>,
                \<lparr>character = ''T'', guessed = False\<rparr>],
      image_idx = 0\<rparr>"
  by (auto simp: update_game_state_def update_state_on_guess_def update_puzzle_def
      initialise_game_def initialise_game_state_def GameState_init_def py_chars_def)

lemma cat_reachable_after_a:
  "reachable (update_game_state (initialise_game GameState_init ''CAT'') ''A'')"
proof -
  have f: "reachable (initialise_game GameState_init ''CAT'')"
    by (rule reachable.fresh) (simp_all add: GameState_init_def)
  have "py_upper (py_strip ''A'') = ''A''"
    by code_simp
  then have "get_guess (initialise_game GameState_init ''CAT'') [''A''] = Inr (''A'', [])"
    by (simp add: initialise_game_def initialise_game_state_def GameState_init_def)
  with f show ?thesis
    by (rule reachable.guess)
qed

theorem remaining_letters_invariant_witness:
  "remaining_letters (update_game_state (initialise_game GameState_init ''CAT'') ''A'')
     \<union> set (map character (filter guessed
         (puzzle (update_game_state (initialise_game GameState_init ''CAT'') ''A''))))
     = set (py_chars ''CAT'') \<and>
   remaining_letters (update_game_state (initialise_game GameState_init ''CAT'') ''A'')
     = {''C'', ''T''}"
proof -
  let ?s = "update_game_state (initialise_game GameState_init ''CAT'') ''A''"
  have w: "word ?s = ''CAT''"
    by (simp add: cat_after_a)
  from remaining_letters_invariant [OF cat_reachable_after_a]
  have "remaining_letters ?s \<union> set (map character (filter guessed (puzzle ?s)))
      = set (py_chars (word ?s))"
    by (rule conjunct1)
  then have 1: "remaining_letters ?s \<union> set (map character (filter guessed (puzzle ?s)))
      = set (py_chars ''CAT'')"
    by (simp only: w)
  have 2: "remaining_letters ?s = {''C'', ''T''}"
    by (simp add: cat_after_a)
  from 1 2 show ?thesis
    by (rule conjI)
qed

section \<open>Revealing every occurrence\<close>

text \<open>
  C8. In a state of a round, one call of \<open>update_game_state\<close> with a letter of the word
  leaves every position of the word that holds this letter revealed: position by position
  the puzzle keeps the characters of the word, and the position is marked as guessed.
\<close>

theorem guess_reveals_every_occurrence:
  assumes "reachable s" and "i < length (word s)" and "word s ! i = c"
  shows "length (puzzle (update_game_state s [c])) = length (word s) \<and>
         character (puzzle (update_game_state s [c]) ! i) = [c] \<and>
         guessed (puzzle (update_game_state s [c]) ! i)"
proof -
  from assms(1) have chars: "map character (puzzle s) = py_chars (word s)"
    and shown: "\<forall>p\<in>set (puzzle s). guessed p \<longleftrightarrow> character p \<notin> remaining_letters s"
    using reachable_invariant by blast+
  from chars have len: "length (puzzle s) = length (word s)"
    by (metis length_map py_chars_def)
  with assms(2) have i: "i < length (puzzle s)"
    by simp
  from chars i assms(3) have ch: "character (puzzle s ! i) = [c]"
    by (metis len nth_map py_chars_def)
  show ?thesis
  proof (cases "[c] \<in> remaining_letters s")
    case True
    with len i ch show ?thesis
      by (simp add: update_game_state_correct)
  next
    case False
    with shown i ch have "guessed (puzzle s ! i)"
      by (metis nth_mem)
    with False len ch show ?thesis
      by (simp add: update_game_state_wrong)
  qed
qed

theorem guess_reveals_every_occurrence_witness:
  "guessed (puzzle (update_game_state (initialise_game GameState_init ''KOALA'') ''A'') ! 2) \<and>
   guessed (puzzle (update_game_state (initialise_game GameState_init ''KOALA'') ''A'') ! 4) \<and>
   map guessed (puzzle (update_game_state (initialise_game GameState_init ''KOALA'') ''A''))
     = [False, False, True, False, True]"
proof -
  let ?s = "initialise_game GameState_init ''KOALA''"
  have r: "reachable ?s"
    by (rule reachable.fresh) (simp_all add: GameState_init_def)
  have w: "word ?s = ''KOALA''"
    by (simp add: initialise_game_def initialise_game_state_def)
  have 2: "guessed (puzzle (update_game_state ?s ''A'') ! 2)"
    using guess_reveals_every_occurrence [OF r, of 2 "CHR ''A''"] by (simp add: w)
  have 4: "guessed (puzzle (update_game_state ?s ''A'') ! 4)"
    using guess_reveals_every_occurrence [OF r, of 4 "CHR ''A''"] by (simp add: w)
  have "map guessed (puzzle (update_game_state ?s ''A'')) = [False, False, True, False, True]"
    by (simp add: update_game_state_def update_state_on_guess_def update_puzzle_def
        initialise_game_def initialise_game_state_def GameState_init_def py_chars_def)
  with 2 4 show ?thesis
    by simp
qed

section \<open>Complete rounds\<close>

lemma letters_normalised:
  "set cs \<subseteq> set ascii_uppercase \<Longrightarrow>
   \<forall>g\<in>set (py_chars cs). py_upper (py_strip g) = g \<and> length g = 1"
  by (auto simp: py_chars_def upper_strip_letter)

lemma distinct_py_chars: "distinct (py_chars cs) = distinct cs"
  by (simp add: py_chars_def distinct_map inj_on_def)

lemma initialise_game_fields:
  "word (initialise_game s w) = w"
  "remaining_letters (initialise_game s w) = set (py_chars w)"
  "puzzle (initialise_game s w) = map (\<lambda>ch. \<lparr>character = ch, guessed = False\<rparr>) (py_chars w)"
  "image_idx (initialise_game s w) = image_idx s"
  "guesses (initialise_game s w) = guesses s"
  by (simp_all add: initialise_game_def initialise_game_state_def)

text \<open>
  C1. From a freshly initialised state for a word of upper-case letters, guessing the distinct
  letters of the word, each once and in any order, ends the round with a win: \<open>play_game\<close>
  returns True, remaining_letters is empty, image_idx is 0 and every position of the puzzle
  is revealed.
\<close>

theorem all_letters_guessed_wins:
  assumes "guesses s = {}" and "image_idx s = 0"
    and "set w \<subseteq> set ascii_uppercase"
    and "distinct cs" and "set cs = set w"
  shows "case play_game (initialise_game s w) (py_chars cs) of
           (r, s') \<Rightarrow> r = Inr True \<and> remaining_letters s' = {} \<and> image_idx s' = 0 \<and>
                      map character (puzzle s') = py_chars w \<and>
                      list_all guessed (puzzle s')"
proof -
  let ?s = "initialise_game s w"
  have "\<exists>s'. play_game_loop ?s (py_chars cs) = (Inr True, s') \<and> remaining_letters s' = {} \<and>
        image_idx s' = image_idx ?s \<and> map character (puzzle s') = map character (puzzle ?s) \<and>
        (\<forall>p\<in>set (puzzle s'). guessed p)"
  proof (rule loop_all_correct)
    show "distinct (py_chars cs)"
      using assms(4) by (simp add: distinct_py_chars)
    show "set (py_chars cs) = remaining_letters ?s"
      using assms(5) by (simp add: initialise_game_fields py_chars_def)
    show "set (py_chars cs) \<inter> guesses ?s = {}"
      using assms(1) by (simp add: initialise_game_fields)
    show "\<forall>g\<in>set (py_chars cs). py_upper (py_strip g) = g \<and> length g = 1"
      using assms(3,5) by (intro letters_normalised) simp
    show "0 \<le> image_idx ?s" "image_idx ?s < 9"
      using assms(2) by (simp_all add: initialise_game_fields)
    show "\<forall>p\<in>set (puzzle ?s). guessed p \<or> character p \<in> remaining_letters ?s"
      by (auto simp: initialise_game_fields)
  qed
  then obtain s' where s': "play_game_loop ?s (py_chars cs) = (Inr True, s')"
    "remaining_letters s' = {}" "image_idx s' = 0" "map character (puzzle s') = py_chars w"
    "\<forall>p\<in>set (puzzle s'). guessed p"
    using assms(2) by (auto simp: initialise_game_fields comp_def)
  have "update_screen ?s = Inr ()"
    using assms(2) by (simp add: update_screen_ok initialise_game_fields)
  then have "play_game ?s (py_chars cs) = (Inr True, s')"
    by (simp add: play_game_def s'(1))
  with s' show ?thesis
    by (simp add: list_all_iff)
qed

theorem all_letters_guessed_wins_witness:
  "fst (play_game (initialise_game GameState_init ''CAT'') [''A'', ''T'', ''C'']) = Inr True \<and>
   map guessed (puzzle (snd (play_game (initialise_game GameState_init ''CAT'')
     [''A'', ''T'', ''C'']))) = [True, True, True] \<and>
   image_idx (snd (play_game (initialise_game GameState_init ''CAT'') [''A'', ''T'', ''C''])) = 0"
proof -
  have 1: "guesses GameState_init = {}" and 2: "image_idx GameState_init = 0"
    by (simp_all add: GameState_init_def)
  have 3: "set ''CAT'' \<subseteq> set ascii_uppercase"
    by (simp add: ascii_uppercase_def)
  have 4: "distinct ''ATC''" and 5: "set ''ATC'' = set ''CAT''"
    by auto
  have in_: "py_chars ''ATC'' = [''A'', ''T'', ''C'']"
    by (simp add: py_chars_def)
  obtain r s' where p: "play_game (initialise_game GameState_init ''CAT'') [''A'', ''T'', ''C'']
      = (r, s')"
    by (cases "play_game (initialise_game GameState_init ''CAT'') [''A'', ''T'', ''C'']")
  from all_letters_guessed_wins [OF 1 2 3 4 5] have r: "r = Inr True" "image_idx s' = 0"
    and c: "map character (puzzle s') = py_chars ''CAT''" and g: "list_all guessed (puzzle s')"
    by (simp_all add: in_ p)
  from c have "length (puzzle s') = 3"
    by (metis length_map py_chars_def length_Cons list.size(3) numeral_3_eq_3)
  with g have "map guessed (puzzle s') = [True, True, True]"
    by (auto simp: list_all_iff length_Suc_conv numeral_3_eq_3)
  with r show ?thesis
    by (simp add: p)
qed

text \<open>
  C2. From a freshly initialised state for a non-empty word, guessing as many distinct
  upper-case letters as there are drawing stages after the first, none of them in the word,
  ends the round with a loss: \<open>play_game\<close> returns False, image_idx is at the last drawing
  stage and remaining_letters still holds every distinct letter of the word.
\<close>

theorem all_wrong_guesses_lose:
  assumes "guesses s = {}" and "image_idx s = 0" and "w \<noteq> []"
    and "distinct cs" and "int (length cs) = int (length images) - 1"
    and "set cs \<subseteq> set ascii_uppercase" and "set cs \<inter> set w = {}"
  shows "case play_game (initialise_game s w) (py_chars cs) of
           (r, s') \<Rightarrow> r = Inr False \<and> image_idx s' = int (length images) - 1 \<and>
                      remaining_letters s' = remaining_letters (initialise_game s w) \<and>
                      remaining_letters s' = set (py_chars w)"
proof -
  let ?s = "initialise_game s w"
  from assms(5) have len: "length cs = 9"
    by (simp add: length_images)
  have "\<exists>s'. play_game_loop ?s (py_chars cs) = (Inr False, s') \<and>
        remaining_letters s' = remaining_letters ?s \<and> image_idx s' = 9 \<and> puzzle s' = puzzle ?s"
  proof (rule loop_all_wrong)
    show "py_chars cs \<noteq> []"
      using len by (auto simp: py_chars_def)
    show "distinct (py_chars cs)"
      using assms(4) by (simp add: distinct_py_chars)
    show "set (py_chars cs) \<inter> remaining_letters ?s = {}"
      using assms(7) by (auto simp: initialise_game_fields py_chars_def)
    show "set (py_chars cs) \<inter> guesses ?s = {}"
      using assms(1) by (simp add: initialise_game_fields)
    show "remaining_letters ?s \<noteq> {}"
      using assms(3) by (simp add: initialise_game_fields py_chars_def)
    show "\<forall>g\<in>set (py_chars cs). py_upper (py_strip g) = g \<and> length g = 1"
      using assms(6) by (rule letters_normalised)
    show "0 \<le> image_idx ?s"
      using assms(2) by (simp add: initialise_game_fields)
    show "image_idx ?s + int (length (py_chars cs)) = 9"
      using assms(2) len by (simp add: initialise_game_fields py_chars_def)
  qed
  then obtain s' where s': "play_game_loop ?s (py_chars cs) = (Inr False, s')"
    "remaining_letters s' = remaining_letters ?s" "image_idx s' = 9"
    by blast
  have "update_screen ?s = Inr ()"
    using assms(2) by (simp add: update_screen_ok initialise_game_fields)
  then have "play_game ?s (py_chars cs) = (Inr False, s')"
    by (simp add: play_game_def s'(1))
  with s' show ?thesis
    by (simp add: length_images initialise_game_fields)
qed

theorem all_wrong_guesses_lose_witness:
  "fst (play_game (initialise_game GameState_init ''DOG'')
      [''X'', ''Y'', ''Z'', ''A'', ''B'', ''C'', ''E'', ''F'', ''H'']) = Inr False \<and>
   image_idx (snd (play_game (initialise_game GameState_init ''DOG'')
      [''X'', ''Y'', ''Z'', ''A'', ''B'', ''C'', ''E'', ''F'', ''H''])) = 9 \<and>
   remaining_letters (snd (play_game (initialise_game GameState_init ''DOG'')
      [''X'', ''Y'', ''Z'', ''A'', ''B'', ''C'', ''E'', ''F'', ''H''])) = {''D'', ''O'', ''G''}"
proof -
  have 1: "guesses GameState_init = {}" and 2: "image_idx GameState_init = 0"
    by (simp_all add: GameState_init_def)
  have 3: "''DOG'' \<noteq> []" and 4: "distinct ''XYZABCEFH''"
    by simp_all
  have 5: "int (length ''XYZABCEFH'') = int (length images) - 1"
    by (simp add: length_images)
  have 6: "set ''XYZABCEFH'' \<subseteq> set ascii_uppercase"
    by (simp add: ascii_uppercase_def)
  have 7: "set ''XYZABCEFH'' \<inter> set ''DOG'' = {}"
    by simp
  have in_: "py_chars ''XYZABCEFH'' =
      [''X'', ''Y'', ''Z'', ''A'', ''B'', ''C'', ''E'', ''F'', ''H'']"
    by (simp add: py_chars_def)
  have w: "set (py_chars ''DOG'') = {''D'', ''O'', ''G''}"
    by (simp add: py_chars_def)
  from all_wrong_guesses_lose [OF 1 2 3 4 5 6 7] show ?thesis
    by (simp add: in_ w length_images case_prod_beta initialise_game_fields)
qed

section \<open>Validation of the guess\<close>

text \<open>
  C6. A line whose normalised form (stripped, upper-cased) is already in guesses is consumed
  by \<open>get_guess\<close> without being returned: the prompt is repeated on the rest of the input,
  and the round loop goes on from the very same state, so image_idx and remaining_letters
  are as they were before that line. The lines of input are ASCII.
\<close>

theorem repeated_guess_rejected:
  assumes "list_all isascii (line # rest)"
    and "py_upper (py_strip line) \<in> guesses s"
  shows "get_guess s (line # rest) = get_guess s rest \<and>
         play_game_loop s (line # rest) = play_game_loop s rest"
proof -
  from assms(2) have g: "get_guess s (line # rest) = get_guess s rest"
    by (simp add: Let_def)
  have "play_game_loop s (line # rest) = play_game_loop s rest"
    by (subst (1 2) play_game_loop.simps) (simp only: g)
  with g show ?thesis
    by simp
qed

lemma strip_upper_a: "py_upper (py_strip '' a '') = ''A''"
  by code_simp

lemma strip_upper_t: "py_upper (py_strip ''t'') = ''T''"
  by code_simp

lemma ascii_a_t: "list_all isascii ['' a '', ''t'']"
  by code_simp

theorem repeated_guess_rejected_witness:
  "list_all isascii ['' a '', ''t''] \<and>
   py_upper (py_strip '' a '')
     \<in> guesses (update_game_state (initialise_game GameState_init ''CAT'') ''A'') \<and>
   get_guess (update_game_state (initialise_game GameState_init ''CAT'') ''A'') ['' a '', ''t'']
     = Inr (''T'', []) \<and>
   play_game_loop (update_game_state (initialise_game GameState_init ''CAT'') ''A'')
       ['' a '', ''t'']
     = play_game_loop (update_game_state (initialise_game GameState_init ''CAT'') ''A'') [''t'']"
proof -
  let ?s = "update_game_state (initialise_game GameState_init ''CAT'') ''A''"
  have g: "guesses ?s = {''A''}"
    by (simp add: update_game_state_def update_state_on_guess_def update_puzzle_def
        initialise_game_def initialise_game_state_def GameState_init_def py_chars_def)
  then have rep: "py_upper (py_strip '' a '') \<in> guesses ?s"
    by (simp add: strip_upper_a)
  have t: "get_guess ?s [''t''] = Inr (''T'', [])"
    by (simp add: strip_upper_t g)
  from repeated_guess_rejected [OF ascii_a_t rep]
  have "get_guess ?s ['' a '', ''t''] = get_guess ?s [''t'']"
    and l: "play_game_loop ?s ['' a '', ''t''] = play_game_loop ?s [''t'']"
    by simp_all
  with t have "get_guess ?s ['' a '', ''t''] = Inr (''T'', [])"
    by simp
  with ascii_a_t rep l show ?thesis
    by (intro conjI)
qed

section \<open>Order of the checks in the round loop\<close>

lemma image_idx_update_game_state:
  "image_idx (update_game_state s g) = image_idx s \<or>
   image_idx (update_game_state s g) = image_idx s + 1"
  by (cases "g \<in> remaining_letters s")
    (simp_all add: update_game_state_correct update_game_state_wrong)

lemma guesses_update_game_state:
  "guesses (update_game_state s g) = insert g (guesses s)"
  by (cases "g \<in> remaining_letters s")
    (simp_all add: update_game_state_correct update_game_state_wrong)

lemma get_guess_new:
  "get_guess s inputs = Inr (g, rest) \<Longrightarrow> g \<notin> guesses s"
  by (induction inputs) (auto simp: Let_def split: if_splits)

text \<open>One turn of the loop, for a state with letters left and a guess read from the input.\<close>

lemma play_game_loop_turn:
  assumes "remaining_letters s \<noteq> {}" and "get_guess s inputs = Inr (g, rest)"
  shows "play_game_loop s inputs =
    (case update_screen (update_game_state s g) of
       Inl e \<Rightarrow> (Inl e, update_game_state s g)
     | Inr u \<Rightarrow> if player_loses (update_game_state s g) then (Inr False, update_game_state s g)
               else play_game_loop (update_game_state s g) rest)"
  using assms by (subst play_game_loop.simps) (simp add: Let_def)

lemma play_game_loop_no_turn:
  assumes "remaining_letters s = {} \<or> (\<exists>e. get_guess s inputs = Inl e)"
  shows "snd (play_game_loop s inputs) = s \<and> fst (play_game_loop s inputs) \<noteq> Inr False"
  using assms by (subst (1 2) play_game_loop.simps) auto

lemma player_loses_screen: "player_loses s \<Longrightarrow> update_screen s = Inr ()"
  by (simp add: player_loses_def length_images update_screen_ok)

lemma loop_guesses_mono:
  "play_game_loop s inputs = (r, s') \<Longrightarrow> guesses s \<subseteq> guesses s'"
proof (induction s inputs arbitrary: r s' rule: play_game_loop.induct)
  case (1 s inputs)
  show ?case
  proof (cases "remaining_letters s = {} \<or> (\<exists>e. get_guess s inputs = Inl e)")
    case True
    with play_game_loop_no_turn [OF True] "1.prems" show ?thesis
      by simp
  next
    case False
    then obtain g rest where rem: "remaining_letters s \<noteq> {}"
      and gg: "get_guess s inputs = Inr (g, rest)"
      by (cases "get_guess s inputs") auto
    let ?s = "update_game_state s g"
    note turn = play_game_loop_turn [OF rem gg]
    show ?thesis
    proof (cases "update_screen ?s")
      case (Inl e)
      with turn "1.prems" show ?thesis
        by (auto simp: guesses_update_game_state)
    next
      case (Inr u)
      show ?thesis
      proof (cases "player_loses ?s")
        case True
        with turn Inr "1.prems" show ?thesis
          by (auto simp: guesses_update_game_state)
      next
        case False
        with turn Inr "1.prems" have "play_game_loop ?s rest = (r, s')"
          by simp
        with "1.IH" [OF rem gg refl refl Inr False] have "guesses ?s \<subseteq> guesses s'"
          by simp
        then show ?thesis
          by (auto simp: guesses_update_game_state)
      qed
    qed
  qed
qed

lemma loop_turn_changes_state:
  assumes "remaining_letters s \<noteq> {}" and "get_guess s inputs = Inr (g, rest)"
    and "play_game_loop s inputs = (r, s')"
  shows "s' \<noteq> s"
proof -
  let ?s = "update_game_state s g"
  have "g \<in> guesses s'"
  proof (cases "update_screen ?s")
    case (Inl e)
    with play_game_loop_turn [OF assms(1,2)] assms(3) show ?thesis
      by (auto simp: guesses_update_game_state)
  next
    case (Inr u)
    show ?thesis
    proof (cases "player_loses ?s")
      case True
      with play_game_loop_turn [OF assms(1,2)] Inr assms(3) show ?thesis
        by (auto simp: guesses_update_game_state)
    next
      case False
      with play_game_loop_turn [OF assms(1,2)] Inr assms(3)
      have "play_game_loop ?s rest = (r, s')"
        by simp
      then have "guesses ?s \<subseteq> guesses s'"
        by (rule loop_guesses_mono)
      then show ?thesis
        by (auto simp: guesses_update_game_state)
    qed
  qed
  with get_guess_new [OF assms(2)] show ?thesis
    by auto
qed

lemma loop_loss_reported:
  "play_game_loop s inputs = (r, s') \<Longrightarrow> s' \<noteq> s \<Longrightarrow> player_loses s' \<Longrightarrow> r = Inr False"
proof (induction s inputs arbitrary: r s' rule: play_game_loop.induct)
  case (1 s inputs)
  show ?case
  proof (cases "remaining_letters s = {} \<or> (\<exists>e. get_guess s inputs = Inl e)")
    case True
    with play_game_loop_no_turn [OF True] "1.prems" show ?thesis
      by simp
  next
    case False
    then obtain g rest where rem: "remaining_letters s \<noteq> {}"
      and gg: "get_guess s inputs = Inr (g, rest)"
      by (cases "get_guess s inputs") auto
    let ?s = "update_game_state s g"
    note turn = play_game_loop_turn [OF rem gg]
    show ?thesis
    proof (cases "update_screen ?s")
      case (Inl e)
      with turn "1.prems" have "s' = ?s"
        by simp
      with "1.prems"(3) Inl player_loses_screen [of ?s] show ?thesis
        by simp
    next
      case (Inr u)
      show ?thesis
      proof (cases "player_loses ?s")
        case True
        with turn Inr "1.prems" show ?thesis
          by simp
      next
        case False
        with turn Inr "1.prems" have run: "play_game_loop ?s rest = (r, s')"
          by simp
        from False "1.prems"(3) have "s' \<noteq> ?s"
          by auto
        with "1.IH" [OF rem gg refl refl Inr False run] "1.prems"(3) show ?thesis
          by simp
      qed
    qed
  qed
qed

lemma loop_false_is_loss:
  "play_game_loop s inputs = (Inr False, s') \<Longrightarrow> player_loses s'"
proof (induction s inputs arbitrary: s' rule: play_game_loop.induct)
  case (1 s inputs)
  show ?case
  proof (cases "remaining_letters s = {} \<or> (\<exists>e. get_guess s inputs = Inl e)")
    case True
    with play_game_loop_no_turn [OF True] "1.prems" show ?thesis
      by simp
  next
    case False
    then obtain g rest where rem: "remaining_letters s \<noteq> {}"
      and gg: "get_guess s inputs = Inr (g, rest)"
      by (cases "get_guess s inputs") auto
    let ?s = "update_game_state s g"
    note turn = play_game_loop_turn [OF rem gg]
    show ?thesis
    proof (cases "update_screen ?s")
      case (Inl e)
      with turn "1.prems" show ?thesis
        by simp
    next
      case (Inr u)
      show ?thesis
      proof (cases "player_loses ?s")
        case True
        with turn Inr "1.prems" show ?thesis
          by auto
      next
        case False
        with turn Inr "1.prems" have "play_game_loop ?s rest = (Inr False, s')"
          by simp
        with "1.IH" [OF rem gg refl refl Inr False] show ?thesis
          by simp
      qed
    qed
  qed
qed


text \<open>
  C7. After every guess the loss is tested before the win. Where \<open>play_game\<close> leaves a state
  other than the one it started from (which is so exactly when at least one guess was
  applied) and that state has image_idx at the last drawing stage, it has returned False; it
  never returns True from such a state, whatever remaining_letters holds; and it returns
  False from no other state. In particular a guess that brings image_idx to the last stage,
  or finds it there, ends the round with False even when it empties remaining_letters. The
  lines of input are ASCII.
\<close>

theorem loss_tested_before_win:
  assumes "list_all isascii inputs" and "play_game s inputs = (r, s')"
  shows "(s' \<noteq> s \<and> player_loses s' \<longrightarrow> r = Inr False) \<and>
         (r = Inr True \<longrightarrow> s' = s \<or> \<not> player_loses s') \<and>
         (r = Inr False \<longrightarrow> s' \<noteq> s \<and> player_loses s') \<and>
         (s' \<noteq> s \<longleftrightarrow>
            update_screen s = Inr () \<and> remaining_letters s \<noteq> {} \<and>
            (\<exists>g rest. get_guess s inputs = Inr (g, rest))) \<and>
         (\<forall>g rest. remaining_letters s \<noteq> {} \<and> get_guess s inputs = Inr (g, rest) \<and>
            image_idx (update_game_state s g) = int (length images) - 1 \<longrightarrow>
            r = Inr False \<and> s' = update_game_state s g)"
proof (cases "update_screen s")
  case (Inl e)
  with assms(2) have res: "r = Inl e" "s' = s"
    by (simp_all add: play_game_def)
  have "image_idx (update_game_state s g) \<noteq> int (length images) - 1" for g
  proof
    assume "image_idx (update_game_state s g) = int (length images) - 1"
    with image_idx_update_game_state [of s g] have "0 \<le> image_idx s" "image_idx s \<le> 9"
      by (auto simp: length_images)
    with Inl show False
      by (simp add: update_screen_ok)
  qed
  with res Inl show ?thesis
    by simp
next
  case (Inr u)
  with assms(2) have run: "play_game_loop s inputs = (r, s')"
    by (simp add: play_game_def)
  have 1: "r = Inr False" if "s' \<noteq> s" "player_loses s'"
    using run that by (rule loop_loss_reported)
  have 3: "s' \<noteq> s \<and> player_loses s'" if "r = Inr False"
  proof -
    from run that have f: "play_game_loop s inputs = (Inr False, s')"
      by simp
    then have "player_loses s'"
      by (rule loop_false_is_loss)
    moreover have "s' \<noteq> s"
    proof (cases "remaining_letters s = {} \<or> (\<exists>e. get_guess s inputs = Inl e)")
      case True
      from play_game_loop_no_turn [OF True] f show ?thesis
        by simp
    next
      case False
      then obtain g rest where "remaining_letters s \<noteq> {}" "get_guess s inputs = Inr (g, rest)"
        by (cases "get_guess s inputs") auto
      then show ?thesis
        using run by (rule loop_turn_changes_state)
    qed
    ultimately show ?thesis
      by simp
  qed
  have 4: "s' \<noteq> s \<longleftrightarrow>
      update_screen s = Inr () \<and> remaining_letters s \<noteq> {} \<and>
      (\<exists>g rest. get_guess s inputs = Inr (g, rest))"
  proof (cases "remaining_letters s = {} \<or> (\<exists>e. get_guess s inputs = Inl e)")
    case True
    from play_game_loop_no_turn [OF True] run have "s' = s"
      by simp
    with True show ?thesis
      by auto
  next
    case False
    then obtain g rest where t: "remaining_letters s \<noteq> {}" "get_guess s inputs = Inr (g, rest)"
      by (cases "get_guess s inputs") auto
    then have "s' \<noteq> s"
      using run by (rule loop_turn_changes_state)
    with t Inr show ?thesis
      by auto
  qed
  have 5: "r = Inr False \<and> s' = update_game_state s g"
    if "remaining_letters s \<noteq> {}" "get_guess s inputs = Inr (g, rest)"
      "image_idx (update_game_state s g) = int (length images) - 1" for g rest
  proof -
    from that(3) have l: "player_loses (update_game_state s g)"
      by (simp add: player_loses_def)
    with play_game_loop_turn [OF that(1,2)] player_loses_screen [OF l] run show ?thesis
      by simp
  qed
  from 1 3 4 5 show ?thesis
    by blast
qed

lemma strip_upper_a1: "py_upper (py_strip ''a'') = ''A''"
  by code_simp

lemma ascii_a: "list_all isascii [''a'']"
  by code_simp

lemma ascii_nine: "list_all isascii (py_chars ''XYZABCEFH'')"
  by code_simp

text \<open>
  Two runs: a guess that empties remaining_letters while image_idx is at the last stage, and
  a round from a fresh state that is lost at its ninth guess.
\<close>

theorem loss_tested_before_win_witness:
  "remaining_letters
     (snd (play_game ((initialise_game GameState_init ''A'')\<lparr>image_idx := 9\<rparr>) [''a''])) = {} \<and>
   fst (play_game ((initialise_game GameState_init ''A'')\<lparr>image_idx := 9\<rparr>) [''a'']) = Inr False \<and>
   fst (play_game (initialise_game GameState_init ''DOG'') (py_chars ''XYZABCEFH'')) = Inr False \<and>
   player_loses (snd (play_game (initialise_game GameState_init ''DOG'') (py_chars ''XYZABCEFH'')))"
proof -
  let ?s = "(initialise_game GameState_init ''A'')\<lparr>image_idx := 9\<rparr>"
  have s: "?s = \<lparr>player_name = [], word = ''A'', current_guess = [], guesses = {},
      remaining_letters = {''A''}, puzzle = [\<lparr>character = ''A'', guessed = False\<rparr>],
      image_idx = 9\<rparr>"
    by (simp add: initialise_game_def initialise_game_state_def GameState_init_def py_chars_def)
  have r: "remaining_letters ?s \<noteq> {}"
    by (simp add: s)
  have gg: "get_guess ?s [''a''] = Inr (''A'', [])"
    by (simp add: s strip_upper_a1)
  have i: "image_idx (update_game_state ?s ''A'') = int (length images) - 1"
    by (simp add: s update_game_state_def update_state_on_guess_def update_puzzle_def
        length_images)
  have e: "remaining_letters (update_game_state ?s ''A'') = {}"
    by (simp add: s update_game_state_def update_state_on_guess_def update_puzzle_def)
  have p: "play_game ?s [''a''] = (fst (play_game ?s [''a'']), snd (play_game ?s [''a'']))"
    by simp
  from loss_tested_before_win [OF ascii_a p] r gg i
  have a: "fst (play_game ?s [''a'']) = Inr False \<and>
      snd (play_game ?s [''a'']) = update_game_state ?s ''A''"
    by blast
  let ?d = "initialise_game GameState_init ''DOG''"
  let ?in = "py_chars ''XYZABCEFH''"
  have "\<exists>s'. play_game_loop ?d ?in = (Inr False, s') \<and>
      remaining_letters s' = remaining_letters ?d \<and> image_idx s' = 9 \<and> puzzle s' = puzzle ?d"
  proof (rule loop_all_wrong)
    show "?in \<noteq> []" "distinct ?in"
      by (simp_all add: py_chars_def)
    show "set ?in \<inter> remaining_letters ?d = {}" "remaining_letters ?d \<noteq> {}"
      by (simp_all add: initialise_game_fields py_chars_def)
    show "set ?in \<inter> guesses ?d = {}" "0 \<le> image_idx ?d"
      by (simp_all add: initialise_game_fields GameState_init_def)
    show "\<forall>g\<in>set ?in. py_upper (py_strip g) = g \<and> length g = 1"
      by (rule letters_normalised) (simp add: ascii_uppercase_def)
    show "image_idx ?d + int (length ?in) = 9"
      by (simp add: initialise_game_fields GameState_init_def py_chars_def)
  qed
  moreover have "update_screen ?d = Inr ()"
    by (simp add: update_screen_ok initialise_game_fields GameState_init_def)
  ultimately have f: "fst (play_game ?d ?in) = Inr False"
    by (auto simp: play_game_def)
  have q: "play_game ?d ?in = (fst (play_game ?d ?in), snd (play_game ?d ?in))"
    by simp
  from loss_tested_before_win [OF ascii_nine q] f
  have "player_loses (snd (play_game ?d ?in))"
    by blast
  with a e f show ?thesis
    by simp
qed

end
